theory Spec2Isabelle
  imports Main
begin

section \<open>The version catalog of \<open>src/example/versions.py\<close>\<close>

text \<open>
  The module imports its identifiers (\<open>GCC\<close>, \<open>CLANG\<close>, \<open>ON\<close>, \<open>OFF\<close>, the backend
  names, ...) from two modules that are not part of the sources at hand. They are plain
  Python strings, so they are taken as a parameter: a record with one string per
  imported name. Nothing is assumed about their values; a theorem that needs two of them
  to differ says so.
\<close>

record globals =
  GCC :: string
  CLANG :: string
  NVCC :: string
  HIPCC :: string
  CLANG_CUDA :: string
  BACKENDS :: string
  UBUNTU :: string
  CMAKE :: string
  BOOST :: string
  ALPAKA :: string
  CXX_STANDARD :: string
  ALPAKA_ACC_CPU_B_SEQ_T_SEQ_ENABLE :: string
  ALPAKA_ACC_CPU_B_OMP2_T_SEQ_ENABLE :: string
  ALPAKA_ACC_GPU_CUDA_ENABLE :: string
  ALPAKA_ACC_GPU_HIP_ENABLE :: string
  ON :: string
  OFF :: string

text \<open>A \<open>Tuple[str, str]\<close>: immutable, hence a plain value.\<close>

type_synonym sw_tuple = "string \<times> string"

text \<open>
  The exceptions the module can raise: a dict subscript with a missing key, a list
  subscript out of range, and the interpreter's bound on nested calls.
\<close>

datatype error = KeyError string | IndexError | RecursionError

text \<open>
  \<open>sw_versions\<close> is a dict display. Its keys are evaluated in order and a later entry
  replaces an earlier one with an equal key, which is what the chain of map updates does.
\<close>

definition sw_versions :: "globals \<Rightarrow> string \<rightharpoonup> string list" where
  "sw_versions g =
     [GCC g \<mapsto> [''5'', ''6'', ''7'', ''8'', ''9'', ''10'', ''11''],
      CLANG g \<mapsto> [''6.0'', ''7'', ''8'', ''9'', ''10'', ''11'', ''12'', ''13'', ''14'', ''15''],
      NVCC g \<mapsto> [''10.0'', ''11.0'', ''11.1'', ''11.2'', ''11.3'', ''11.4'', ''11.5'', ''11.6''],
      HIPCC g \<mapsto> [''4.3'', ''4.5'', ''5.0'', ''5.1''],
      BACKENDS g \<mapsto>
        [ALPAKA_ACC_CPU_B_SEQ_T_SEQ_ENABLE g,
         ALPAKA_ACC_CPU_B_OMP2_T_SEQ_ENABLE g,
         ALPAKA_ACC_GPU_CUDA_ENABLE g,
         ALPAKA_ACC_GPU_HIP_ENABLE g],
      UBUNTU g \<mapsto> [''18.04'', ''20.04''],
      CMAKE g \<mapsto> [''3.18.6'', ''3.19.8'', ''3.20.6'', ''3.21.6'', ''3.22.3''],
      BOOST g \<mapsto>
        [''1.66.0'', ''1.67.0'', ''1.74.0'', ''1.75.0'', ''1.76.0'', ''1.77.0'', ''1.78.0''],
      ALPAKA g \<mapsto> [''0.6.0'', ''0.6.1'', ''0.7.0'', ''0.8.0'', ''0.9.0'', ''develop''],
      CXX_STANDARD g \<mapsto> [''14'', ''17'', ''20'']]"

text \<open>The subscript \<open>sw_versions[name]\<close>: raises \<open>KeyError(name)\<close> on a missing key.\<close>

definition sw_versions_getitem :: "globals \<Rightarrow> string \<Rightarrow> error + string list" where
  "sw_versions_getitem g name =
     (case sw_versions g name of None \<Rightarrow> Inl (KeyError name) | Some versions \<Rightarrow> Inr versions)"

text \<open>
  A \<open>for\<close> loop over a list whose body updates local variables and may raise: the first
  exception ends the loop and is the result.
\<close>

fun for_each :: "('a \<Rightarrow> 's \<Rightarrow> error + 's) \<Rightarrow> 'a list \<Rightarrow> 's \<Rightarrow> error + 's" where
  "for_each body [] s = Inr s"
| "for_each body (x # xs) s =
     (case body x s of Inl e \<Rightarrow> Inl e | Inr s' \<Rightarrow> for_each body xs s')"

text \<open>A sample assignment of the imported identifiers, used to run the functions.\<close>

definition sample_globals :: globals where
  "sample_globals =
     \<lparr>GCC = ''gcc'', CLANG = ''clang'', NVCC = ''nvcc'', HIPCC = ''hipcc'',
      CLANG_CUDA = ''clang-cuda'', BACKENDS = ''alpaka_backends'', UBUNTU = ''ubuntu'',
      CMAKE = ''cmake'', BOOST = ''boost'', ALPAKA = ''alpaka'',
      CXX_STANDARD = ''cxx_standard'',
      ALPAKA_ACC_CPU_B_SEQ_T_SEQ_ENABLE = ''alpaka_ACC_CPU_B_SEQ_T_SEQ_ENABLE'',
      ALPAKA_ACC_CPU_B_OMP2_T_SEQ_ENABLE = ''alpaka_ACC_CPU_B_OMP2_T_SEQ_ENABLE'',
      ALPAKA_ACC_GPU_CUDA_ENABLE = ''alpaka_ACC_GPU_CUDA_ENABLE'',
      ALPAKA_ACC_GPU_HIP_ENABLE = ''alpaka_ACC_GPU_HIP_ENABLE'',
      ON = ''on'', OFF = ''off''\<rparr>"

section \<open>The axis builders\<close>

text \<open>
  \<open>get_sw_tuple_list(name)\<close>: one subscript of the catalog, then a loop appending
  \<open>(name, version)\<close> for each version.
\<close>

definition get_sw_tuple_list :: "globals \<Rightarrow> string \<Rightarrow> error + sw_tuple list" where
  "get_sw_tuple_list g name =
     (case sw_versions_getitem g name of
        Inl e \<Rightarrow> Inl e
      | Inr versions \<Rightarrow>
          Inr (foldl (\<lambda>tuple_list version. tuple_list @ [(name, version)]) [] versions))"


text \<open>
  The body of the loop of \<open>get_backend_versions\<close> for one backend name: the list starts
  with the \<open>OFF\<close> state and is extended by the branch the name selects. The catalog is
  subscripted inside the branch, as in the source.
\<close>

definition backend_list :: "globals \<Rightarrow> string \<Rightarrow> error + sw_tuple list" where
  "backend_list g backend_name =
     (if backend_name = ALPAKA_ACC_GPU_CUDA_ENABLE g then
        (case sw_versions_getitem g (NVCC g) of
           Inl e \<Rightarrow> Inl e
         | Inr versions \<Rightarrow>
             Inr (foldl (\<lambda>states version. states @ [(backend_name, version)])
                    [(backend_name, OFF g)] versions))
      else if backend_name = ALPAKA_ACC_GPU_HIP_ENABLE g then
        (case sw_versions_getitem g (HIPCC g) of
           Inl e \<Rightarrow> Inl e
         | Inr versions \<Rightarrow>
             Inr (foldl (\<lambda>states version. states @ [(backend_name, version)])
                    [(backend_name, OFF g)] versions))
      else Inr ([(backend_name, OFF g)] @ [(backend_name, ON g)]))"

definition get_backend_versions :: "globals \<Rightarrow> error + sw_tuple list list" where
  "get_backend_versions g =
     (case sw_versions_getitem g (BACKENDS g) of
        Inl e \<Rightarrow> Inl e
      | Inr backend_names \<Rightarrow>
          for_each
            (\<lambda>backend_name backends.
               case backend_list g backend_name of
                 Inl e \<Rightarrow> Inl e
               | Inr states \<Rightarrow> Inr (backends @ [states]))
            backend_names [])"

text \<open>
  \<open>get_backend_single_matrix()\<close>: the fixed first combination, then one loop over the
  \<open>NVCC\<close> versions and one over the \<open>HIPCC\<close> versions.
\<close>

definition get_backend_single_matrix :: "globals \<Rightarrow> error + sw_tuple list list" where
  "get_backend_single_matrix g =
     (let combination_matrix =
            [[(ALPAKA_ACC_CPU_B_SEQ_T_SEQ_ENABLE g, ON g),
              (ALPAKA_ACC_CPU_B_OMP2_T_SEQ_ENABLE g, ON g)]]
      in case sw_versions_getitem g (NVCC g) of
           Inl e \<Rightarrow> Inl e
         | Inr cuda_versions \<Rightarrow>
             (let combination_matrix =
                    foldl (\<lambda>combination_matrix cuda_version.
                             combination_matrix @ [[(ALPAKA_ACC_GPU_CUDA_ENABLE g, cuda_version)]])
                      combination_matrix cuda_versions
              in case sw_versions_getitem g (HIPCC g) of
                   Inl e \<Rightarrow> Inl e
                 | Inr rocm_versions \<Rightarrow>
                     Inr (foldl (\<lambda>combination_matrix rocm_version.
                                   combination_matrix
                                     @ [[(ALPAKA_ACC_GPU_HIP_ENABLE g, rocm_version)]])
                            combination_matrix rocm_versions)))"

section \<open>The matrix composer on a store of list objects\<close>

text \<open>
  \<open>create_combination_matrix\<close> returns nothing: it works by appending to list objects
  that its caller also holds. Python lists are therefore modelled as objects in a store,
  addressed by references. Following the annotations of the source there are two kinds of
  list objects, kept in two stores: objects of type \<open>List[Tuple[str, str]]\<close>, whose elements
  are values, and objects of type \<open>List[List[Tuple[str, str]]]\<close>, whose elements are
  references to objects of the first kind. A reference is the position of the object in its
  store, and a new object is placed at the end of the store, so that its reference is fresh.

  Objects of one kind may be shared freely: \<open>input_list\<close> and \<open>combination_matrix\<close> may be
  the same object, an axis may occur twice in \<open>input_list\<close>, and \<open>current_combination\<close> may
  be one of the axes or one of the combinations already emitted. An object is of one kind
  only, as the annotations have it. The one list that fits both annotations is the empty
  one: a call that passes one empty list as \<open>combination_matrix\<close> and also as
  \<open>current_combination\<close> or as an axis of \<open>input_list\<close> is accepted by the code, which
  then appends to that list, and is not a store of this model. No statement below is about
  such a call.
\<close>

type_synonym ref = nat

record heap =
  tuple_lists :: "sw_tuple list list"
  list_lists :: "ref list list"

text \<open>
  The subscript \<open>xs[i]\<close> of a list with a Python \<open>int\<close>: a negative index counts from
  the end, and an index outside \<open>-len(xs) .. len(xs) - 1\<close> raises \<open>IndexError\<close>.
\<close>

definition list_getitem :: "'a list \<Rightarrow> int \<Rightarrow> error + 'a" where
  "list_getitem xs i =
     (if 0 \<le> i \<and> i < int (length xs) then Inr (xs ! nat i)
      else if i < 0 \<and> - int (length xs) \<le> i then Inr (xs ! nat (int (length xs) + i))
      else Inl IndexError)"

text \<open>\<open>xs[:]\<close>: a new list object with the elements of the object at \<open>a\<close>.\<close>

definition copy_tuple_list :: "ref \<Rightarrow> heap \<Rightarrow> ref \<times> heap" where
  "copy_tuple_list a h =
     (length (tuple_lists h), h\<lparr>tuple_lists := tuple_lists h @ [tuple_lists h ! a]\<rparr>)"

text \<open>\<open>xs.append(x)\<close> on an object of either kind: the object at \<open>a\<close> is updated in place.\<close>

definition tuple_list_append :: "ref \<Rightarrow> sw_tuple \<Rightarrow> heap \<Rightarrow> heap" where
  "tuple_list_append a x h =
     h\<lparr>tuple_lists := (tuple_lists h)[a := tuple_lists h ! a @ [x]]\<rparr>"

definition list_list_append :: "ref \<Rightarrow> ref \<Rightarrow> heap \<Rightarrow> heap" where
  "list_list_append a r h =
     h\<lparr>list_lists := (list_lists h)[a := list_lists h ! a @ [r]]\<rparr>"

text \<open>
  \<open>create_combination_matrix(index, current_combination, input_list, combination_matrix)\<close>.
  The three list arguments are references. The result is the store after the call together
  with the exception that ended it, if any; a store changed before an exception stays
  changed, as in Python.

  The first argument bounds the nesting of calls that the interpreter still allows: a call
  with no nesting left raises \<open>RecursionError\<close>. It makes the recursion well-founded for
  every store, also for one in which \<open>input_list\<close> and \<open>combination_matrix\<close> are the same
  object and the list that \<open>index\<close> is compared with grows during the run.

  \<open>for_version\<close> is the \<open>for\<close> loop; its list argument holds the elements still to be
  visited. The loop runs over the elements that the object \<open>input_list[index]\<close> has when the
  loop starts: that object is of the first kind, and the only append to an object of the
  first kind in the body goes to the copy made just before.
\<close>

fun create_combination_matrix ::
    "nat \<Rightarrow> int \<Rightarrow> ref \<Rightarrow> ref \<Rightarrow> ref \<Rightarrow> heap \<Rightarrow> error option \<times> heap"
  and for_version ::
    "nat \<Rightarrow> sw_tuple list \<Rightarrow> int \<Rightarrow> ref \<Rightarrow> ref \<Rightarrow> ref \<Rightarrow> heap \<Rightarrow> error option \<times> heap"
where
  "create_combination_matrix 0 index current_combination input_list combination_matrix h =
     (Some RecursionError, h)"
| "create_combination_matrix (Suc depth) index current_combination input_list
       combination_matrix h =
     (if index < int (length (list_lists h ! input_list)) then
        (case list_getitem (list_lists h ! input_list) index of
           Inl e \<Rightarrow> (Some e, h)
         | Inr axis \<Rightarrow>
             for_version depth (tuple_lists h ! axis) index current_combination input_list
               combination_matrix h)
      else (None, list_list_append combination_matrix current_combination h))"
| "for_version depth [] index current_combination input_list combination_matrix h = (None, h)"
| "for_version depth (version # versions) index current_combination input_list
       combination_matrix h =
     (let (current_combination_copy, h1) = copy_tuple_list current_combination h;
          h2 = tuple_list_append current_combination_copy version h1
      in (case create_combination_matrix depth (index + 1) current_combination_copy input_list
                 combination_matrix h2 of
            (Some e, h') \<Rightarrow> (Some e, h')
          | (None, h') \<Rightarrow>
              for_version depth versions index current_combination input_list
                combination_matrix h'))"

text \<open>
  What a caller reads from an object of the second kind: the list of the lists that its
  elements refer to.
\<close>

definition list_list_value :: "heap \<Rightarrow> ref \<Rightarrow> sw_tuple list list" where
  "list_list_value h a = map (\<lambda>r. tuple_lists h ! r) (list_lists h ! a)"

text \<open>
  A call is valid in a store when its three arguments are references to existing objects
  and no object of the second kind holds a reference to an object that does not exist.
  Python has no other stores and calls.
\<close>

definition valid_call :: "heap \<Rightarrow> ref \<Rightarrow> ref \<Rightarrow> ref \<Rightarrow> bool" where
  "valid_call h current_combination input_list combination_matrix \<longleftrightarrow>
     current_combination < length (tuple_lists h)
     \<and> input_list < length (list_lists h)
     \<and> combination_matrix < length (list_lists h)
     \<and> list_all (list_all (\<lambda>r. r < length (tuple_lists h))) (list_lists h)"

text \<open>
  The enumeration the specification asks for, written from its words: nested iteration
  with the outermost loop over the first axis; each combination takes one element of every
  axis, in the order of the axes.
\<close>

fun nested_iteration :: "'a list list \<Rightarrow> 'a list list" where
  "nested_iteration [] = [[]]"
| "nested_iteration (axis # axes) =
     concat (map (\<lambda>x. map (\<lambda>combination. x # combination) (nested_iteration axes)) axis)"

text \<open>
  Stores to run the composer on. In \<open>sample_heap\<close> the object 0 of the second kind is an
  input list of two axes, the object 1 an empty output list, and the tuple list 2 an empty
  partial combination. In \<open>empty_axis_heap\<close> the second axis is empty, in \<open>no_axes_heap\<close>
  the input list is. In \<open>aliased_heap\<close> there is one object of the second kind, to be passed
  as input list and as output list at once.
\<close>

definition sample_heap :: heap where
  "sample_heap =
     \<lparr>tuple_lists =
        [[(''seq'', ''off''), (''seq'', ''on'')],
         [(''cuda'', ''off''), (''cuda'', ''10.0''), (''cuda'', ''11.0'')],
         []],
      list_lists = [[0, 1], []]\<rparr>"

definition empty_axis_heap :: heap where
  "empty_axis_heap =
     \<lparr>tuple_lists = [[(''seq'', ''off''), (''seq'', ''on'')], [], []],
      list_lists = [[0, 1], []]\<rparr>"

definition no_axes_heap :: heap where
  "no_axes_heap = \<lparr>tuple_lists = [[]], list_lists = [[], []]\<rparr>"

definition aliased_heap :: heap where
  "aliased_heap = \<lparr>tuple_lists = [[(''seq'', ''on'')], []], list_lists = [[0]]\<rparr>"

subsection \<open>Notions used in the proofs\<close>

text \<open>
  \<open>grow h new cm refs\<close> is the store \<open>h\<close> after some objects of the first kind were
  created and some references were appended to the object \<open>cm\<close> of the second kind.
\<close>

definition grow :: "heap \<Rightarrow> sw_tuple list list \<Rightarrow> ref \<Rightarrow> ref list \<Rightarrow> heap" where
  "grow h new cm refs =
     h\<lparr>tuple_lists := tuple_lists h @ new,
       list_lists := (list_lists h)[cm := list_lists h ! cm @ refs]\<rparr>"

text \<open>
  A call or loop started in \<open>h\<close> \<open>produces\<close> a list of combinations when it ends without
  exception, in a store grown from \<open>h\<close>, and the references it appended to \<open>cm\<close> refer to
  those combinations, in that order.
\<close>

definition produces ::
    "heap \<Rightarrow> ref \<Rightarrow> error option \<times> heap \<Rightarrow> sw_tuple list list \<Rightarrow> bool" where
  "produces h cm result combinations \<longleftrightarrow>
     (\<exists>new refs. result = (None, grow h new cm refs)
        \<and> (\<forall>r\<in>set refs. r < length (tuple_lists h) + length new)
        \<and> map (\<lambda>r. (tuple_lists h @ new) ! r) refs = combinations)"

text \<open>The values of the axes of the input list from position \<open>k\<close> on.\<close>

definition axes_from :: "heap \<Rightarrow> ref \<Rightarrow> nat \<Rightarrow> sw_tuple list list" where
  "axes_from h il k = map (\<lambda>r. tuple_lists h ! r) (drop k (list_lists h ! il))"

definition ready :: "heap \<Rightarrow> ref \<Rightarrow> ref \<Rightarrow> bool" where
  "ready h cc il \<longleftrightarrow>
     cc < length (tuple_lists h) \<and> (\<forall>r\<in>set (list_lists h ! il). r < length (tuple_lists h))"


section \<open>The catalog's keys\<close>

lemma dom_sw_versions:
  "dom (sw_versions g) =
     {GCC g, CLANG g, NVCC g, HIPCC g, BACKENDS g, UBUNTU g, CMAKE g, BOOST g, ALPAKA g,
      CXX_STANDARD g}"
  unfolding sw_versions_def by (simp add: insert_commute)

lemma append_loop:
  "foldl (\<lambda>acc x. acc @ [f x]) acc xs = acc @ map f xs"
  by (induction xs arbitrary: acc) simp_all

section \<open>Single-axis projection\<close>

text \<open>
  Claim C5. Asking \<open>get_sw_tuple_list\<close> for an identifier that is not a key of the
  catalog fails: the result is the exception of the dict subscript (Python's \<open>KeyError\<close>,
  the missing-axis error of the specification), which carries the requested identifier,
  and therefore is never a list, in particular never the empty list.
  For a key of the catalog the result is the list of \<open>(name, version)\<close> pairs in catalog
  order.
\<close>

theorem get_sw_tuple_list_unknown_axis:
  "(name \<notin> dom (sw_versions g) \<longrightarrow>
      get_sw_tuple_list g name = Inl (KeyError name) \<and> get_sw_tuple_list g name \<noteq> Inr [])
   \<and> (\<forall>versions. sw_versions g name = Some versions \<longrightarrow>
         get_sw_tuple_list g name = Inr (map (Pair name) versions))"
  by (auto simp: get_sw_tuple_list_def sw_versions_getitem_def append_loop
      split: option.splits)

theorem get_sw_tuple_list_unknown_axis_witness:
  "''UNKNOWN_AXIS'' \<notin> dom (sw_versions sample_globals)
   \<and> get_sw_tuple_list sample_globals ''UNKNOWN_AXIS'' = Inl (KeyError ''UNKNOWN_AXIS'')
   \<and> sw_versions sample_globals ''cxx_standard'' = Some [''14'', ''17'', ''20'']
   \<and> get_sw_tuple_list sample_globals ''cxx_standard''
       = Inr [(''cxx_standard'', ''14''), (''cxx_standard'', ''17''), (''cxx_standard'', ''20'')]"
proof -
  have unknown: "''UNKNOWN_AXIS'' \<notin> dom (sw_versions sample_globals)"
    by (simp add: dom_sw_versions sample_globals_def)
  have known: "sw_versions sample_globals ''cxx_standard'' = Some [''14'', ''17'', ''20'']"
    by (simp add: sw_versions_def sample_globals_def)
  from get_sw_tuple_list_unknown_axis [of "''UNKNOWN_AXIS''" sample_globals] unknown known
    get_sw_tuple_list_unknown_axis [of "''cxx_standard''" sample_globals]
  show ?thesis by simp
qed

section \<open>The compiler axis\<close>

lemma compiler_keys:
  "\<exists>versions. sw_versions g (GCC g) = Some versions"
  "\<exists>versions. sw_versions g (CLANG g) = Some versions"
  "\<exists>versions. sw_versions g (NVCC g) = Some versions"
  "\<exists>versions. sw_versions g (HIPCC g) = Some versions"
  "\<exists>versions. sw_versions g (BACKENDS g) = Some versions"
  using dom_sw_versions [of g] by (auto simp: dom_def)







section \<open>The backend axes\<close>

lemma backend_list_value:
  assumes "sw_versions g (NVCC g) = Some nvcc" and "sw_versions g (HIPCC g) = Some hipcc"
  shows "backend_list g name =
     Inr ((name, OFF g)
          # (if name = ALPAKA_ACC_GPU_CUDA_ENABLE g then map (Pair name) nvcc
             else if name = ALPAKA_ACC_GPU_HIP_ENABLE g then map (Pair name) hipcc
             else [(name, ON g)]))"
  by (simp add: backend_list_def sw_versions_getitem_def assms append_loop)

lemma collecting_loop:
  assumes "\<And>x. f x = Inr (v x)"
  shows "for_each (\<lambda>x acc. case f x of Inl e \<Rightarrow> Inl e | Inr y \<Rightarrow> Inr (acc @ [y])) xs acc
           = Inr (acc @ map v xs)"
  by (induction xs arbitrary: acc) (simp_all add: assms)

text \<open>
  Claim C3. \<open>get_backend_versions\<close> returns one state sequence per backend name of the
  catalog, in catalog order. Each sequence starts with \<open>(name, OFF)\<close>. For the CUDA backend
  it continues with \<open>(name, v)\<close> for the \<open>NVCC\<close> versions of the catalog in their order, for
  the HIP backend with \<open>(name, v)\<close> for the \<open>HIPCC\<close> versions, and for any other backend
  with the single entry \<open>(name, ON)\<close>.
\<close>

theorem backend_state_sequences:
  assumes "ALPAKA_ACC_GPU_CUDA_ENABLE g \<noteq> ALPAKA_ACC_GPU_HIP_ENABLE g"
  shows "\<exists>backend_names nvcc hipcc backends.
           sw_versions g (BACKENDS g) = Some backend_names
           \<and> sw_versions g (NVCC g) = Some nvcc
           \<and> sw_versions g (HIPCC g) = Some hipcc
           \<and> get_backend_versions g = Inr backends
           \<and> length backends = length backend_names
           \<and> (\<forall>i<length backend_names.
                 (\<exists>states. backends ! i = (backend_names ! i, OFF g) # states)
                 \<and> (backend_names ! i = ALPAKA_ACC_GPU_CUDA_ENABLE g \<longrightarrow>
                       backends ! i
                       = (backend_names ! i, OFF g) # map (Pair (backend_names ! i)) nvcc)
                 \<and> (backend_names ! i = ALPAKA_ACC_GPU_HIP_ENABLE g \<longrightarrow>
                       backends ! i
                       = (backend_names ! i, OFF g) # map (Pair (backend_names ! i)) hipcc)
                 \<and> (backend_names ! i \<noteq> ALPAKA_ACC_GPU_CUDA_ENABLE g
                      \<and> backend_names ! i \<noteq> ALPAKA_ACC_GPU_HIP_ENABLE g \<longrightarrow>
                       backends ! i
                       = [(backend_names ! i, OFF g), (backend_names ! i, ON g)]))"
proof -
  from compiler_keys [of g] obtain names nvcc hipcc where
    k: "sw_versions g (BACKENDS g) = Some names" "sw_versions g (NVCC g) = Some nvcc"
       "sw_versions g (HIPCC g) = Some hipcc"
    by blast
  let ?states = "\<lambda>name. (name, OFF g)
      # (if name = ALPAKA_ACC_GPU_CUDA_ENABLE g then map (Pair name) nvcc
         else if name = ALPAKA_ACC_GPU_HIP_ENABLE g then map (Pair name) hipcc
         else [(name, ON g)])"
  have "get_backend_versions g = Inr ([] @ map ?states names)"
    unfolding get_backend_versions_def sw_versions_getitem_def k option.case sum.case
    by (rule collecting_loop) (rule backend_list_value [OF k(2,3)])
  then have run: "get_backend_versions g = Inr (map ?states names)" by simp
  have "\<forall>i<length names.
      (\<exists>states. map ?states names ! i = (names ! i, OFF g) # states)
      \<and> (names ! i = ALPAKA_ACC_GPU_CUDA_ENABLE g \<longrightarrow>
            map ?states names ! i = (names ! i, OFF g) # map (Pair (names ! i)) nvcc)
      \<and> (names ! i = ALPAKA_ACC_GPU_HIP_ENABLE g \<longrightarrow>
            map ?states names ! i = (names ! i, OFF g) # map (Pair (names ! i)) hipcc)
      \<and> (names ! i \<noteq> ALPAKA_ACC_GPU_CUDA_ENABLE g
           \<and> names ! i \<noteq> ALPAKA_ACC_GPU_HIP_ENABLE g \<longrightarrow>
            map ?states names ! i = [(names ! i, OFF g), (names ! i, ON g)])"
    using assms by simp
  with run k show ?thesis
    by (intro exI [of _ names] exI [of _ nvcc] exI [of _ hipcc]
        exI [of _ "map ?states names"]) simp
qed

theorem backend_state_sequences_witness:
  "ALPAKA_ACC_GPU_CUDA_ENABLE sample_globals \<noteq> ALPAKA_ACC_GPU_HIP_ENABLE sample_globals
   \<and> (\<exists>backends. get_backend_versions sample_globals = Inr backends
        \<and> length backends = 4
        \<and> backends ! 0 = [(''alpaka_ACC_CPU_B_SEQ_T_SEQ_ENABLE'', ''off''),
                          (''alpaka_ACC_CPU_B_SEQ_T_SEQ_ENABLE'', ''on'')]
        \<and> backends ! 2 = (''alpaka_ACC_GPU_CUDA_ENABLE'', ''off'')
            # map (Pair ''alpaka_ACC_GPU_CUDA_ENABLE'')
                [''10.0'', ''11.0'', ''11.1'', ''11.2'', ''11.3'', ''11.4'', ''11.5'', ''11.6'']
        \<and> backends ! 3 = (''alpaka_ACC_GPU_HIP_ENABLE'', ''off'')
            # map (Pair ''alpaka_ACC_GPU_HIP_ENABLE'') [''4.3'', ''4.5'', ''5.0'', ''5.1''])"
proof -
  let ?names = "[''alpaka_ACC_CPU_B_SEQ_T_SEQ_ENABLE'', ''alpaka_ACC_CPU_B_OMP2_T_SEQ_ENABLE'',
      ''alpaka_ACC_GPU_CUDA_ENABLE'', ''alpaka_ACC_GPU_HIP_ENABLE'']"
  let ?nvcc = "[''10.0'', ''11.0'', ''11.1'', ''11.2'', ''11.3'', ''11.4'', ''11.5'', ''11.6'']"
  let ?hipcc = "[''4.3'', ''4.5'', ''5.0'', ''5.1'']"
  have d: "ALPAKA_ACC_GPU_CUDA_ENABLE sample_globals \<noteq> ALPAKA_ACC_GPU_HIP_ENABLE sample_globals"
    by (simp add: sample_globals_def)
  have k: "sw_versions sample_globals (BACKENDS sample_globals) = Some ?names"
    "sw_versions sample_globals (NVCC sample_globals) = Some ?nvcc"
    "sw_versions sample_globals (HIPCC sample_globals) = Some ?hipcc"
    by (simp_all add: sw_versions_def sample_globals_def)
  have n: "ALPAKA_ACC_GPU_CUDA_ENABLE sample_globals = ''alpaka_ACC_GPU_CUDA_ENABLE''"
    "ALPAKA_ACC_GPU_HIP_ENABLE sample_globals = ''alpaka_ACC_GPU_HIP_ENABLE''"
    "ON sample_globals = ''on''" "OFF sample_globals = ''off''"
    by (simp_all add: sample_globals_def)
  from backend_state_sequences [OF d] obtain backends where
    r: "get_backend_versions sample_globals = Inr backends"
    and l: "length backends = length ?names"
    and s: "\<forall>i<length ?names.
        (?names ! i = ''alpaka_ACC_GPU_CUDA_ENABLE'' \<longrightarrow>
              backends ! i = (?names ! i, ''off'') # map (Pair (?names ! i)) ?nvcc)
        \<and> (?names ! i = ''alpaka_ACC_GPU_HIP_ENABLE'' \<longrightarrow>
              backends ! i = (?names ! i, ''off'') # map (Pair (?names ! i)) ?hipcc)
        \<and> (?names ! i \<noteq> ''alpaka_ACC_GPU_CUDA_ENABLE''
             \<and> ?names ! i \<noteq> ''alpaka_ACC_GPU_HIP_ENABLE'' \<longrightarrow>
              backends ! i = [(?names ! i, ''off''), (?names ! i, ''on'')])"
    unfolding k n option.inject by blast
  have "length backends = 4" using l by simp
  moreover from s [rule_format, of 0] have
    "backends ! 0 = [(''alpaka_ACC_CPU_B_SEQ_T_SEQ_ENABLE'', ''off''),
         (''alpaka_ACC_CPU_B_SEQ_T_SEQ_ENABLE'', ''on'')]"
    by simp
  moreover from s [rule_format, of 2] have
    "backends ! 2 = (''alpaka_ACC_GPU_CUDA_ENABLE'', ''off'')
        # map (Pair ''alpaka_ACC_GPU_CUDA_ENABLE'') ?nvcc"
    by simp
  moreover from s [rule_format, of 3] have
    "backends ! 3 = (''alpaka_ACC_GPU_HIP_ENABLE'', ''off'')
        # map (Pair ''alpaka_ACC_GPU_HIP_ENABLE'') ?hipcc"
    by simp
  ultimately show ?thesis using d r by blast
qed

section \<open>The single-backend matrix\<close>

lemma backends_of_catalog:
  assumes "BACKENDS g \<notin> {UBUNTU g, CMAKE g, BOOST g, ALPAKA g, CXX_STANDARD g}"
  shows "sw_versions g (BACKENDS g) =
     Some [ALPAKA_ACC_CPU_B_SEQ_T_SEQ_ENABLE g, ALPAKA_ACC_CPU_B_OMP2_T_SEQ_ENABLE g,
           ALPAKA_ACC_GPU_CUDA_ENABLE g, ALPAKA_ACC_GPU_HIP_ENABLE g]"
  using assms by (simp add: sw_versions_def)

text \<open>
  Claim C6. \<open>get_backend_single_matrix\<close> returns first the combination that turns both
  CPU backends on, then one combination of a single pair for every \<open>NVCC\<close> version of the
  catalog and then one for every \<open>HIPCC\<close> version, each in catalog order: one more
  combination than there are \<open>NVCC\<close> and \<open>HIPCC\<close> versions. When the key \<open>BACKENDS\<close> is not
  replaced by a later key of the catalog and the two CPU backend names differ from the
  CUDA and HIP names, the backends of the first combination are exactly the backends of
  the catalog other than CUDA and HIP.
\<close>

theorem single_backend_matrix:
  "\<exists>cuda_versions rocm_versions combination_matrix.
     sw_versions g (NVCC g) = Some cuda_versions
     \<and> sw_versions g (HIPCC g) = Some rocm_versions
     \<and> get_backend_single_matrix g = Inr combination_matrix
     \<and> combination_matrix =
         [(ALPAKA_ACC_CPU_B_SEQ_T_SEQ_ENABLE g, ON g),
          (ALPAKA_ACC_CPU_B_OMP2_T_SEQ_ENABLE g, ON g)]
         # map (\<lambda>cuda_version. [(ALPAKA_ACC_GPU_CUDA_ENABLE g, cuda_version)]) cuda_versions
         @ map (\<lambda>rocm_version. [(ALPAKA_ACC_GPU_HIP_ENABLE g, rocm_version)]) rocm_versions
     \<and> length combination_matrix = 1 + length cuda_versions + length rocm_versions
     \<and> (BACKENDS g \<notin> {UBUNTU g, CMAKE g, BOOST g, ALPAKA g, CXX_STANDARD g}
          \<and> ALPAKA_ACC_CPU_B_SEQ_T_SEQ_ENABLE g
              \<notin> {ALPAKA_ACC_GPU_CUDA_ENABLE g, ALPAKA_ACC_GPU_HIP_ENABLE g}
          \<and> ALPAKA_ACC_CPU_B_OMP2_T_SEQ_ENABLE g
              \<notin> {ALPAKA_ACC_GPU_CUDA_ENABLE g, ALPAKA_ACC_GPU_HIP_ENABLE g}
          \<longrightarrow> (\<exists>backend_names.
                 sw_versions g (BACKENDS g) = Some backend_names
                 \<and> combination_matrix ! 0 =
                     map (\<lambda>backend_name. (backend_name, ON g))
                       (filter (\<lambda>backend_name.
                                  backend_name \<noteq> ALPAKA_ACC_GPU_CUDA_ENABLE g
                                  \<and> backend_name \<noteq> ALPAKA_ACC_GPU_HIP_ENABLE g)
                          backend_names)))"
proof -
  from compiler_keys [of g] obtain cs rs where
    k: "sw_versions g (NVCC g) = Some cs" "sw_versions g (HIPCC g) = Some rs"
    by blast
  let ?m = "[(ALPAKA_ACC_CPU_B_SEQ_T_SEQ_ENABLE g, ON g),
             (ALPAKA_ACC_CPU_B_OMP2_T_SEQ_ENABLE g, ON g)]
      # map (\<lambda>cuda_version. [(ALPAKA_ACC_GPU_CUDA_ENABLE g, cuda_version)]) cs
      @ map (\<lambda>rocm_version. [(ALPAKA_ACC_GPU_HIP_ENABLE g, rocm_version)]) rs"
  have run: "get_backend_single_matrix g = Inr ?m"
    by (simp add: get_backend_single_matrix_def sw_versions_getitem_def k append_loop Let_def)
  have "length ?m = 1 + length cs + length rs" by simp
  moreover have "BACKENDS g \<notin> {UBUNTU g, CMAKE g, BOOST g, ALPAKA g, CXX_STANDARD g}
      \<and> ALPAKA_ACC_CPU_B_SEQ_T_SEQ_ENABLE g
          \<notin> {ALPAKA_ACC_GPU_CUDA_ENABLE g, ALPAKA_ACC_GPU_HIP_ENABLE g}
      \<and> ALPAKA_ACC_CPU_B_OMP2_T_SEQ_ENABLE g
          \<notin> {ALPAKA_ACC_GPU_CUDA_ENABLE g, ALPAKA_ACC_GPU_HIP_ENABLE g}
      \<longrightarrow> (\<exists>backend_names.
             sw_versions g (BACKENDS g) = Some backend_names
             \<and> ?m ! 0 =
                 map (\<lambda>backend_name. (backend_name, ON g))
                   (filter (\<lambda>backend_name.
                              backend_name \<noteq> ALPAKA_ACC_GPU_CUDA_ENABLE g
                              \<and> backend_name \<noteq> ALPAKA_ACC_GPU_HIP_ENABLE g)
                      backend_names))"
    using backends_of_catalog [of g] by auto
  ultimately show ?thesis
    using run k by (intro exI [of _ cs] exI [of _ rs] exI [of _ ?m]) blast
qed

theorem single_backend_matrix_witness:
  "BACKENDS sample_globals
     \<notin> {UBUNTU sample_globals, CMAKE sample_globals, BOOST sample_globals,
         ALPAKA sample_globals, CXX_STANDARD sample_globals}
   \<and> (\<exists>combination_matrix.
        get_backend_single_matrix sample_globals = Inr combination_matrix
        \<and> length combination_matrix = 13
        \<and> combination_matrix ! 0 =
            [(''alpaka_ACC_CPU_B_SEQ_T_SEQ_ENABLE'', ''on''),
             (''alpaka_ACC_CPU_B_OMP2_T_SEQ_ENABLE'', ''on'')]
        \<and> combination_matrix ! 1 = [(''alpaka_ACC_GPU_CUDA_ENABLE'', ''10.0'')]
        \<and> combination_matrix ! 8 = [(''alpaka_ACC_GPU_CUDA_ENABLE'', ''11.6'')]
        \<and> combination_matrix ! 9 = [(''alpaka_ACC_GPU_HIP_ENABLE'', ''4.3'')]
        \<and> combination_matrix ! 12 = [(''alpaka_ACC_GPU_HIP_ENABLE'', ''5.1'')])"
proof -
  let ?nvcc = "[''10.0'', ''11.0'', ''11.1'', ''11.2'', ''11.3'', ''11.4'', ''11.5'', ''11.6'']"
  let ?hipcc = "[''4.3'', ''4.5'', ''5.0'', ''5.1'']"
  have b: "BACKENDS sample_globals
     \<notin> {UBUNTU sample_globals, CMAKE sample_globals, BOOST sample_globals,
         ALPAKA sample_globals, CXX_STANDARD sample_globals}"
    by (simp add: sample_globals_def)
  have k: "sw_versions sample_globals (NVCC sample_globals) = Some ?nvcc"
    "sw_versions sample_globals (HIPCC sample_globals) = Some ?hipcc"
    by (simp_all add: sw_versions_def sample_globals_def)
  have n: "ALPAKA_ACC_GPU_CUDA_ENABLE sample_globals = ''alpaka_ACC_GPU_CUDA_ENABLE''"
    "ALPAKA_ACC_GPU_HIP_ENABLE sample_globals = ''alpaka_ACC_GPU_HIP_ENABLE''"
    "ALPAKA_ACC_CPU_B_SEQ_T_SEQ_ENABLE sample_globals = ''alpaka_ACC_CPU_B_SEQ_T_SEQ_ENABLE''"
    "ALPAKA_ACC_CPU_B_OMP2_T_SEQ_ENABLE sample_globals = ''alpaka_ACC_CPU_B_OMP2_T_SEQ_ENABLE''"
    "ON sample_globals = ''on''"
    by (simp_all add: sample_globals_def)
  from single_backend_matrix [of sample_globals] obtain m where
    r: "get_backend_single_matrix sample_globals = Inr m"
    and m: "m = [(''alpaka_ACC_CPU_B_SEQ_T_SEQ_ENABLE'', ''on''),
                 (''alpaka_ACC_CPU_B_OMP2_T_SEQ_ENABLE'', ''on'')]
        # map (\<lambda>cuda_version. [(''alpaka_ACC_GPU_CUDA_ENABLE'', cuda_version)]) ?nvcc
        @ map (\<lambda>rocm_version. [(''alpaka_ACC_GPU_HIP_ENABLE'', rocm_version)]) ?hipcc"
    unfolding k n option.inject by blast
  have "length m = 13" "m ! 0 = [(''alpaka_ACC_CPU_B_SEQ_T_SEQ_ENABLE'', ''on''),
             (''alpaka_ACC_CPU_B_OMP2_T_SEQ_ENABLE'', ''on'')]"
    "m ! 1 = [(''alpaka_ACC_GPU_CUDA_ENABLE'', ''10.0'')]"
    "m ! 8 = [(''alpaka_ACC_GPU_CUDA_ENABLE'', ''11.6'')]"
    "m ! 9 = [(''alpaka_ACC_GPU_HIP_ENABLE'', ''4.3'')]"
    "m ! 12 = [(''alpaka_ACC_GPU_HIP_ENABLE'', ''5.1'')]"
    unfolding m by simp_all
  with b r show ?thesis by blast
qed

section \<open>The composer: what a call changes in the store\<close>

lemma grow_empty: "grow h [] cm [] = h"
  by (simp add: grow_def)

lemma grow_grow: "grow (grow h a cm r) b cm s = grow h (a @ b) cm (r @ s)"
  by (cases "cm < length (list_lists h)") (simp_all add: grow_def list_update_beyond)

lemma tuple_lists_grow: "tuple_lists (grow h new cm refs) = tuple_lists h @ new"
  by (simp add: grow_def)

lemma list_lists_grow_other: "il \<noteq> cm \<Longrightarrow> list_lists (grow h new cm refs) ! il = list_lists h ! il"
  by (simp add: grow_def)

lemma list_lists_grow_same:
  "cm < length (list_lists h) \<Longrightarrow> list_lists (grow h new cm refs) ! cm = list_lists h ! cm @ refs"
  by (simp add: grow_def)

lemma length_list_lists_grow: "length (list_lists (grow h new cm refs)) = length (list_lists h)"
  by (simp add: grow_def)

lemma list_list_append_grow: "list_list_append cm cc h = grow h [] cm [cc]"
  by (simp add: grow_def list_list_append_def)

lemma copy_append_grow:
  "tuple_list_append (length (tuple_lists h)) v (snd (copy_tuple_list cc h))
     = grow h [tuple_lists h ! cc @ [v]] cm []"
  by (simp add: grow_def tuple_list_append_def copy_tuple_list_def)

lemma for_version_Cons:
  "for_version depth (v # vs) index cc il cm h =
     (case create_combination_matrix depth (index + 1) (length (tuple_lists h)) il cm
             (grow h [tuple_lists h ! cc @ [v]] cm []) of
        (Some e, h') \<Rightarrow> (Some e, h')
      | (None, h') \<Rightarrow> for_version depth vs index cc il cm h')"
  using copy_append_grow [of h v cc cm]
  by (simp add: copy_tuple_list_def)

lemma frame:
  "\<exists>new refs. snd (create_combination_matrix depth index cc il cm h) = grow h new cm refs"
  "\<exists>new refs. snd (for_version depth versions index cc il cm h) = grow h new cm refs"
proof (induction depth index cc il cm h and depth versions index cc il cm h
    rule: create_combination_matrix_for_version.induct)
  case (1 index cc il cm h)
  show ?case using grow_empty [of h cm, symmetric] by (simp del: grow_empty) blast
next
  case (2 depth index cc il cm h)
  show ?case
  proof (cases "index < int (length (list_lists h ! il))")
    case False
    then show ?thesis by (auto simp: list_list_append_grow)
  next
    case True
    show ?thesis
    proof (cases "list_getitem (list_lists h ! il) index")
      case (Inl e)
      with True show ?thesis using grow_empty [of h cm, symmetric] by simp blast
    next
      case (Inr axis)
      with True "2.IH" [of axis] show ?thesis by simp
    qed
  qed
next
  case (3 depth index cc il cm h)
  show ?case using grow_empty [of h cm, symmetric] by simp blast
next
  case (4 depth v vs index cc il cm h)
  let ?h2 = "grow h [tuple_lists h ! cc @ [v]] cm []"
  let ?r = "create_combination_matrix depth (index + 1) (length (tuple_lists h)) il cm ?h2"
  have h2: "tuple_list_append (length (tuple_lists h)) v (snd (copy_tuple_list cc h)) = ?h2"
    by (rule copy_append_grow)
  have c: "copy_tuple_list cc h = (length (tuple_lists h), snd (copy_tuple_list cc h))"
    by (simp add: copy_tuple_list_def)
  from "4.IH"(1) [OF refl c [symmetric] h2 [symmetric]]
  obtain new1 refs1 where r1: "snd ?r = grow ?h2 new1 cm refs1" unfolding h2 by blast
  then have r1': "snd ?r = grow h ([tuple_lists h ! cc @ [v]] @ new1) cm refs1"
    by (simp add: grow_grow)
  show ?case
  proof (cases "fst ?r")
    case (Some e)
    then have "for_version depth (v # vs) index cc il cm h = (Some e, snd ?r)"
      by (subst for_version_Cons) (auto split: prod.splits)
    with r1' show ?thesis by (metis snd_conv)
  next
    case None
    then have eq: "for_version depth (v # vs) index cc il cm h
        = for_version depth vs index cc il cm (snd ?r)"
      by (subst for_version_Cons) (auto split: prod.splits)
    have "(None, snd ?r) = ?r"
      using None by (metis prod.collapse)
    from "4.IH"(2) [OF refl c [symmetric] h2 [symmetric] this refl]
    obtain new2 refs2 where "snd (for_version depth vs index cc il cm (snd ?r))
        = grow (snd ?r) new2 cm refs2" by blast
    with eq r1' show ?thesis by (metis grow_grow)
  qed
qed

section \<open>The composer: what a call appends\<close>

lemma produces_nothing: "produces h cm (None, h) []"
  unfolding produces_def using grow_empty [of h cm, symmetric] by fastforce

lemma produces_leaf:
  assumes "cc < length (tuple_lists h)"
  shows "produces h cm (None, list_list_append cm cc h) [tuple_lists h ! cc]"
  unfolding produces_def list_list_append_grow
  by (rule exI [of _ "[]"], rule exI [of _ "[cc]"]) (use assms in simp)

lemma produces_then:
  assumes "produces h cm (None, h1) A" and "produces h1 cm result B"
  shows "produces h cm result (A @ B)"
proof -
  from assms(1) obtain new1 refs1 where
    h1: "h1 = grow h new1 cm refs1"
    and v1: "\<forall>r\<in>set refs1. r < length (tuple_lists h) + length new1"
    and A: "map (\<lambda>r. (tuple_lists h @ new1) ! r) refs1 = A"
    unfolding produces_def by auto
  from assms(2) obtain new2 refs2 where
    r: "result = (None, grow h1 new2 cm refs2)"
    and v2: "\<forall>r\<in>set refs2. r < length (tuple_lists h1) + length new2"
    and B: "map (\<lambda>r. (tuple_lists h1 @ new2) ! r) refs2 = B"
    unfolding produces_def by auto
  have t1: "tuple_lists h1 = tuple_lists h @ new1"
    by (simp add: h1 tuple_lists_grow)
  have "map (\<lambda>r. (tuple_lists h @ new1 @ new2) ! r) refs1 = A"
  proof -
    have "map (\<lambda>r. ((tuple_lists h @ new1) @ new2) ! r) refs1
        = map (\<lambda>r. (tuple_lists h @ new1) ! r) refs1"
      using v1 by (intro map_cong refl) (simp add: nth_append del: append_assoc)
    then show ?thesis using A by simp
  qed
  moreover have "map (\<lambda>r. (tuple_lists h @ new1 @ new2) ! r) refs2 = B"
    using B by (simp add: t1)
  moreover have "result = (None, grow h (new1 @ new2) cm (refs1 @ refs2))"
    by (simp add: r h1 grow_grow)
  moreover have "\<forall>r\<in>set (refs1 @ refs2). r < length (tuple_lists h) + length (new1 @ new2)"
    using v1 v2 by (auto simp: t1)
  ultimately show ?thesis
    unfolding produces_def
    by (intro exI [of _ "new1 @ new2"] exI [of _ "refs1 @ refs2"]) simp
qed

lemma produces_after_copy:
  assumes "produces (grow h [x] cm []) cm result A"
  shows "produces h cm result A"
proof -
  from assms obtain new refs where
    r: "result = (None, grow (grow h [x] cm []) new cm refs)"
    and v: "\<forall>r\<in>set refs. r < length (tuple_lists (grow h [x] cm [])) + length new"
    and A: "map (\<lambda>r. (tuple_lists (grow h [x] cm []) @ new) ! r) refs = A"
    unfolding produces_def by auto
  show ?thesis
    unfolding produces_def
    by (intro exI [of _ "[x] @ new"] exI [of _ refs])
      (use r v A in \<open>simp add: grow_grow tuple_lists_grow\<close>)
qed

lemma produces_heap:
  assumes "produces h cm (e, h') A"
  shows "\<exists>new. tuple_lists h' = tuple_lists h @ new"
    and "il \<noteq> cm \<Longrightarrow> list_lists h' ! il = list_lists h ! il"
  using assms unfolding produces_def
  by (auto simp: tuple_lists_grow list_lists_grow_other)

lemma axes_from_extend:
  assumes "\<forall>r\<in>set (list_lists h ! il). r < length (tuple_lists h)"
    and "tuple_lists h' = tuple_lists h @ new" and "list_lists h' ! il = list_lists h ! il"
  shows "axes_from h' il k = axes_from h il k"
  unfolding axes_from_def assms(2,3)
  using assms(1) by (intro map_cong refl) (auto simp: nth_append dest: in_set_dropD)

lemma ready_extend:
  assumes "ready h cc il" "tuple_lists h' = tuple_lists h @ new"
    "list_lists h' ! il = list_lists h ! il"
  shows "ready h' cc il"
  using assms unfolding ready_def by auto

lemma for_version_produces:
  assumes differ: "il \<noteq> cm"
    and step: "\<And>cc h. ready h cc il \<Longrightarrow> length (list_lists h ! il) = n \<Longrightarrow>
            produces h cm (create_combination_matrix depth (index + 1) cc il cm h)
              (map ((@) (tuple_lists h ! cc)) (nested_iteration (axes_from h il (Suc k))))"
    and "ready h cc il" and "length (list_lists h ! il) = n"
  shows "produces h cm (for_version depth versions index cc il cm h)
           (concat (map (\<lambda>v. map ((@) (tuple_lists h ! cc @ [v]))
                      (nested_iteration (axes_from h il (Suc k)))) versions))"
  using assms(3,4)
proof (induction versions arbitrary: h)
  case Nil
  show ?case by (simp add: produces_nothing)
next
  case (Cons v vs)
  let ?copy = "length (tuple_lists h)"
  let ?h2 = "grow h [tuple_lists h ! cc @ [v]] cm []"
  let ?rest = "nested_iteration (axes_from h il (Suc k))"
  have t2: "tuple_lists ?h2 = tuple_lists h @ [tuple_lists h ! cc @ [v]]"
    by (simp add: tuple_lists_grow)
  have l2: "list_lists ?h2 ! il = list_lists h ! il"
    using differ by (simp add: list_lists_grow_other)
  have ready2: "ready ?h2 ?copy il"
    using Cons.prems(1) unfolding ready_def t2 l2 by auto
  have axes2: "axes_from ?h2 il (Suc k) = axes_from h il (Suc k)"
    using Cons.prems(1) t2 l2 unfolding ready_def by (intro axes_from_extend) auto
  have copy2: "tuple_lists ?h2 ! ?copy = tuple_lists h ! cc @ [v]"
    by (simp add: t2)
  from step [OF ready2] l2 Cons.prems(2)
  have first: "produces ?h2 cm
      (create_combination_matrix depth (index + 1) ?copy il cm ?h2)
      (map ((@) (tuple_lists h ! cc @ [v])) ?rest)"
    by (simp add: axes2 copy2)
  then obtain h3 where
    r3: "create_combination_matrix depth (index + 1) ?copy il cm ?h2 = (None, h3)"
    unfolding produces_def by blast
  from produces_heap [OF first [unfolded r3]] differ obtain new3 where
    t3: "tuple_lists h3 = tuple_lists ?h2 @ new3" and l3: "list_lists h3 ! il = list_lists ?h2 ! il"
    by blast
  have t3': "tuple_lists h3 = tuple_lists h @ ([tuple_lists h ! cc @ [v]] @ new3)"
    by (simp add: t3 t2)
  have l3': "list_lists h3 ! il = list_lists h ! il"
    by (simp add: l3 l2)
  have ready3: "ready h3 cc il"
    using Cons.prems(1) t3' l3' by (rule ready_extend)
  have axes3: "axes_from h3 il (Suc k) = axes_from h il (Suc k)"
    using Cons.prems(1) t3' l3' unfolding ready_def by (intro axes_from_extend) auto
  have cc3: "tuple_lists h3 ! cc = tuple_lists h ! cc"
    using Cons.prems(1) unfolding ready_def t3' by (simp add: nth_append)
  have len3: "length (list_lists h3 ! il) = n"
    using l3' Cons.prems(2) by simp
  from Cons.IH [OF ready3 len3]
  have "produces h3 cm (for_version depth vs index cc il cm h3)
      (concat (map (\<lambda>v. map ((@) (tuple_lists h ! cc @ [v])) ?rest) vs))"
    by (simp only: axes3 cc3)
  with first [unfolded r3]
  have "produces ?h2 cm (for_version depth vs index cc il cm h3)
      (map ((@) (tuple_lists h ! cc @ [v])) ?rest
        @ concat (map (\<lambda>v. map ((@) (tuple_lists h ! cc @ [v])) ?rest) vs))"
    by (rule produces_then)
  then have "produces h cm (for_version depth vs index cc il cm h3)
      (map ((@) (tuple_lists h ! cc @ [v])) ?rest
        @ concat (map (\<lambda>v. map ((@) (tuple_lists h ! cc @ [v])) ?rest) vs))"
    by (rule produces_after_copy)
  moreover have "for_version depth (v # vs) index cc il cm h
      = for_version depth vs index cc il cm h3"
    by (subst for_version_Cons) (simp add: r3)
  ultimately show ?case by (simp only: list.map concat.simps)
qed

lemma prefix_nested_iteration:
  "map ((@) p) (nested_iteration (axis # axes))
     = concat (map (\<lambda>v. map ((@) (p @ [v])) (nested_iteration axes)) axis)"
  by (induction axis) simp_all

lemma list_getitem_nat: "k < length xs \<Longrightarrow> list_getitem xs (int k) = Inr (xs ! k)"
  by (simp add: list_getitem_def)

lemma create_combination_matrix_produces:
  assumes "il \<noteq> cm"
  shows "ready h cc il \<Longrightarrow> k \<le> length (list_lists h ! il)
    \<Longrightarrow> length (list_lists h ! il) - k < depth
    \<Longrightarrow> produces h cm (create_combination_matrix depth (int k) cc il cm h)
          (map ((@) (tuple_lists h ! cc)) (nested_iteration (axes_from h il k)))"
proof (induction depth arbitrary: k cc h)
  case 0
  then show ?case by simp
next
  case (Suc depth)
  let ?axes = "list_lists h ! il"
  show ?case
  proof (cases "k < length ?axes")
    case False
    with Suc.prems have k: "k = length ?axes" by simp
    have "produces h cm (None, list_list_append cm cc h) [tuple_lists h ! cc]"
      using Suc.prems(1) unfolding ready_def by (intro produces_leaf) simp
    then show ?thesis by (simp add: k axes_from_def)
  next
    case True
    let ?versions = "tuple_lists h ! (?axes ! k)"
    have run: "create_combination_matrix (Suc depth) (int k) cc il cm h
        = for_version depth ?versions (int k) cc il cm h"
      using True by (simp add: list_getitem_nat)
    have here: "axes_from h il k = ?versions # axes_from h il (Suc k)"
      using True unfolding axes_from_def by (simp add: Cons_nth_drop_Suc [symmetric])
    have "produces h cm (for_version depth ?versions (int k) cc il cm h)
        (concat (map (\<lambda>v. map ((@) (tuple_lists h ! cc @ [v]))
                   (nested_iteration (axes_from h il (Suc k)))) ?versions))"
    proof (rule for_version_produces [OF assms _ Suc.prems(1) refl])
      fix cc' h'
      assume r: "ready h' cc' il" and n: "length (list_lists h' ! il) = length ?axes"
      have "produces h' cm (create_combination_matrix depth (int (Suc k)) cc' il cm h')
          (map ((@) (tuple_lists h' ! cc')) (nested_iteration (axes_from h' il (Suc k))))"
        using r n True Suc.prems(3) by (intro Suc.IH) simp_all
      then show "produces h' cm (create_combination_matrix depth (int k + 1) cc' il cm h')
          (map ((@) (tuple_lists h' ! cc')) (nested_iteration (axes_from h' il (Suc k))))"
        by (simp add: add.commute)
    qed
    moreover have "concat (map (\<lambda>v. map ((@) (tuple_lists h ! cc @ [v]))
                   (nested_iteration (axes_from h il (Suc k)))) ?versions)
        = map ((@) (tuple_lists h ! cc)) (nested_iteration (axes_from h il k))"
      by (simp only: here prefix_nested_iteration)
    ultimately show ?thesis by (simp only: run)
  qed
qed

section \<open>The enumeration of the specification\<close>

lemma nested_iteration_product_lists: "nested_iteration axes = product_lists axes"
  by (induction axes) simp_all

lemma length_nested_iteration:
  "length (nested_iteration axes) = prod_list (map length axes)"
  by (simp add: nested_iteration_product_lists length_product_lists prod_list.eq_foldr)

lemma nested_iteration_elements:
  assumes "c \<in> set (nested_iteration axes)"
  shows "length c = length axes" and "\<forall>i<length axes. c ! i \<in> set (axes ! i)"
  using assms
  by (simp_all add: nested_iteration_product_lists product_lists_set list_all2_conv_all_nth)

lemma distinct_nested_iteration:
  "\<forall>axis\<in>set axes. distinct axis \<Longrightarrow> distinct (nested_iteration axes)"
  by (simp add: nested_iteration_product_lists distinct_product_lists)

lemma nested_iteration_empty_axis:
  assumes "[] \<in> set axes"
  shows "nested_iteration axes = []"
proof -
  from assms have "0 \<in> set (map length axes)" by force
  then have "length (nested_iteration axes) = 0"
    by (simp only: length_nested_iteration prod_list_zero_iff)
  then show ?thesis by simp
qed

lemma map_append_Nil: "map ((@) []) xs = xs"
  by (induction xs) simp_all

lemma valid_call_ready: "valid_call h cc il cm \<Longrightarrow> ready h cc il"
  unfolding valid_call_def ready_def by (auto simp: list_all_iff)

lemma list_list_value_grow:
  assumes "cm < length (list_lists h)"
    and "\<forall>r\<in>set (list_lists h ! cm). r < length (tuple_lists h)"
  shows "list_list_value (grow h new cm refs) cm
           = list_list_value h cm @ map (\<lambda>r. (tuple_lists h @ new) ! r) refs"
  using assms by (simp add: list_list_value_def grow_def nth_append)

lemma valid_call_refs:
  "valid_call h cc il cm \<Longrightarrow> a < length (list_lists h)
     \<Longrightarrow> \<forall>r\<in>set (list_lists h ! a). r < length (tuple_lists h)"
  unfolding valid_call_def by (auto simp: list_all_iff)

text \<open>The call the claims speak of: index 0, an empty partial combination, an empty output.\<close>

lemma initial_call:
  assumes valid: "valid_call h cc il cm"
    and cc: "tuple_lists h ! cc = []" and cm: "list_lists h ! cm = []"
    and depth: "length (list_lists h ! il) < depth"
  shows "\<exists>h'. create_combination_matrix depth 0 cc il cm h = (None, h')
           \<and> list_list_value h' cm = nested_iteration (list_list_value h il)"
proof (cases "il = cm")
  case True
  from depth obtain d where d: "depth = Suc d" by (cases depth) simp_all
  from valid have "cm < length (list_lists h)" by (simp add: valid_call_def)
  then have "list_list_value (list_list_append cm cc h) cm = [[]]"
    by (simp add: list_list_value_def list_list_append_def cm cc)
  then show ?thesis
    using True cm by (simp add: d list_list_value_def)
next
  case False
  have "produces h cm (create_combination_matrix depth (int 0) cc il cm h)
      (map ((@) (tuple_lists h ! cc)) (nested_iteration (axes_from h il 0)))"
    using False valid_call_ready [OF valid] depth
    by (intro create_combination_matrix_produces) simp_all
  then obtain new refs where
    r: "create_combination_matrix depth 0 cc il cm h = (None, grow h new cm refs)"
    and c: "map (\<lambda>r. (tuple_lists h @ new) ! r) refs = nested_iteration (list_list_value h il)"
    unfolding produces_def by (auto simp: cc map_append_Nil axes_from_def list_list_value_def)
  from valid have "cm < length (list_lists h)" by (simp add: valid_call_def)
  then have "list_list_value (grow h new cm refs) cm
      = list_list_value h cm @ map (\<lambda>r. (tuple_lists h @ new) ! r) refs"
    by (intro list_list_value_grow) (simp_all add: cm)
  with r c show ?thesis by (simp add: list_list_value_def cm)
qed

section \<open>The composer: the claims about the full product\<close>

text \<open>
  Claim C1. A call with index 0, an empty partial combination and an empty output list,
  with more nesting allowed than there are axes, ends without exception, and the output
  list then holds as many combinations as the product of the lengths of the axes; with an
  empty axis among them the output list is empty.
\<close>

theorem cartesian_size:
  assumes "valid_call h current_combination input_list combination_matrix"
    and "tuple_lists h ! current_combination = []"
    and "list_lists h ! combination_matrix = []"
    and "length (list_lists h ! input_list) < depth"
  shows "\<exists>h'. create_combination_matrix depth 0 current_combination input_list
                 combination_matrix h = (None, h')
           \<and> length (list_list_value h' combination_matrix)
               = prod_list (map length (list_list_value h input_list))
           \<and> ([] \<in> set (list_list_value h input_list)
                \<longrightarrow> list_list_value h' combination_matrix = [])"
  using initial_call [OF assms]
  by (auto simp: length_nested_iteration nested_iteration_empty_axis)

theorem cartesian_size_witness:
  "(\<exists>h'. create_combination_matrix 3 0 2 0 1 sample_heap = (None, h')
      \<and> length (list_list_value h' 1) = 6)
   \<and> [] \<in> set (list_list_value empty_axis_heap 0)
   \<and> (\<exists>h'. create_combination_matrix 3 0 2 0 1 empty_axis_heap = (None, h')
      \<and> list_list_value h' 1 = [])"
proof -
  have v1: "valid_call sample_heap 2 0 1" and v2: "valid_call empty_axis_heap 2 0 1"
    by (simp_all add: valid_call_def sample_heap_def empty_axis_heap_def)
  have c1: "tuple_lists sample_heap ! 2 = []" and c2: "tuple_lists empty_axis_heap ! 2 = []"
    by (simp_all add: sample_heap_def empty_axis_heap_def)
  have m1: "list_lists sample_heap ! 1 = []" and m2: "list_lists empty_axis_heap ! 1 = []"
    by (simp_all add: sample_heap_def empty_axis_heap_def)
  have d1: "length (list_lists sample_heap ! 0) < 3"
    and d2: "length (list_lists empty_axis_heap ! 0) < 3"
    by (simp_all add: sample_heap_def empty_axis_heap_def)
  have size: "prod_list (map length (list_list_value sample_heap 0)) = 6"
    by (simp add: list_list_value_def sample_heap_def)
  have e: "[] \<in> set (list_list_value empty_axis_heap 0)"
    by (simp add: list_list_value_def empty_axis_heap_def)
  from cartesian_size [OF v1 c1 m1 d1] cartesian_size [OF v2 c2 m2 d2] e
  show ?thesis unfolding size by blast
qed

text \<open>
  Claim C2. The output list of that call holds the combinations in the order of the
  nested iteration whose outermost loop runs over the first axis; every combination has one
  element per axis, the element at position \<open>i\<close> taken from axis \<open>i\<close>.
\<close>

theorem enumeration_order:
  assumes "valid_call h current_combination input_list combination_matrix"
    and "tuple_lists h ! current_combination = []"
    and "list_lists h ! combination_matrix = []"
    and "length (list_lists h ! input_list) < depth"
  shows "\<exists>h'. create_combination_matrix depth 0 current_combination input_list
                 combination_matrix h = (None, h')
           \<and> list_list_value h' combination_matrix
               = nested_iteration (list_list_value h input_list)
           \<and> (\<forall>c\<in>set (list_list_value h' combination_matrix).
                 length c = length (list_list_value h input_list)
                 \<and> (\<forall>i<length (list_list_value h input_list).
                       c ! i \<in> set (list_list_value h input_list ! i)))"
proof -
  from initial_call [OF assms] obtain h' where
    r: "create_combination_matrix depth 0 current_combination input_list combination_matrix h
         = (None, h')"
    and v: "list_list_value h' combination_matrix
         = nested_iteration (list_list_value h input_list)"
    by blast
  from v nested_iteration_elements [of _ "list_list_value h input_list"]
  have "\<forall>c\<in>set (list_list_value h' combination_matrix).
      length c = length (list_list_value h input_list)
      \<and> (\<forall>i<length (list_list_value h input_list). c ! i \<in> set (list_list_value h input_list ! i))"
    by simp
  with r v show ?thesis by blast
qed

theorem enumeration_order_witness:
  "\<exists>h'. create_combination_matrix 3 0 2 0 1 sample_heap = (None, h')
     \<and> list_list_value h' 1 =
         [[(''seq'', ''off''), (''cuda'', ''off'')],
          [(''seq'', ''off''), (''cuda'', ''10.0'')],
          [(''seq'', ''off''), (''cuda'', ''11.0'')],
          [(''seq'', ''on''), (''cuda'', ''off'')],
          [(''seq'', ''on''), (''cuda'', ''10.0'')],
          [(''seq'', ''on''), (''cuda'', ''11.0'')]]"
proof -
  have v: "valid_call sample_heap 2 0 1"
    by (simp add: valid_call_def sample_heap_def)
  have c: "tuple_lists sample_heap ! 2 = []" and m: "list_lists sample_heap ! 1 = []"
    and d: "length (list_lists sample_heap ! 0) < 3"
    by (simp_all add: sample_heap_def)
  have n: "nested_iteration (list_list_value sample_heap 0) =
         [[(''seq'', ''off''), (''cuda'', ''off'')],
          [(''seq'', ''off''), (''cuda'', ''10.0'')],
          [(''seq'', ''off''), (''cuda'', ''11.0'')],
          [(''seq'', ''on''), (''cuda'', ''off'')],
          [(''seq'', ''on''), (''cuda'', ''10.0'')],
          [(''seq'', ''on''), (''cuda'', ''11.0'')]]"
    by (simp add: list_list_value_def sample_heap_def)
  from enumeration_order [OF v c m d] show ?thesis unfolding n by blast
qed

text \<open>
  Claim C7. When no axis of the input list holds the same entry twice, the combinations
  read from the output list after the call are pairwise distinct.
\<close>

theorem no_duplicates:
  assumes "valid_call h current_combination input_list combination_matrix"
    and "tuple_lists h ! current_combination = []"
    and "list_lists h ! combination_matrix = []"
    and "length (list_lists h ! input_list) < depth"
    and "\<forall>axis\<in>set (list_list_value h input_list). distinct axis"
  shows "\<exists>h'. create_combination_matrix depth 0 current_combination input_list
                 combination_matrix h = (None, h')
           \<and> distinct (list_list_value h' combination_matrix)"
  using initial_call [OF assms(1-4)] distinct_nested_iteration [OF assms(5)] by auto

theorem no_duplicates_witness:
  "list_all distinct (list_list_value sample_heap 0)
   \<and> (\<exists>h'. create_combination_matrix 3 0 2 0 1 sample_heap = (None, h')
        \<and> distinct (list_list_value h' 1))"
proof -
  have v: "valid_call sample_heap 2 0 1"
    by (simp add: valid_call_def sample_heap_def)
  have c: "tuple_lists sample_heap ! 2 = []" and m: "list_lists sample_heap ! 1 = []"
    and d: "length (list_lists sample_heap ! 0) < 3"
    by (simp_all add: sample_heap_def)
  have a: "list_all distinct (list_list_value sample_heap 0)"
    by (simp add: list_list_value_def sample_heap_def)
  then have "\<forall>axis\<in>set (list_list_value sample_heap 0). distinct axis"
    by (simp add: list_all_iff)
  from no_duplicates [OF v c m d this] a show ?thesis by blast
qed

text \<open>
  Claim C8. With an input list of no axes, the call appends exactly one combination to the
  empty output list, the empty one.
\<close>

theorem empty_input_list:
  assumes "valid_call h current_combination input_list combination_matrix"
    and "tuple_lists h ! current_combination = []"
    and "list_lists h ! combination_matrix = []"
    and "list_lists h ! input_list = []"
    and "0 < depth"
  shows "\<exists>h'. create_combination_matrix depth 0 current_combination input_list
                 combination_matrix h = (None, h')
           \<and> list_list_value h' combination_matrix = [[]]"
proof -
  have "length (list_lists h ! input_list) < depth"
    using assms(4,5) by simp
  from initial_call [OF assms(1-3) this] show ?thesis
    by (simp add: list_list_value_def assms(4))
qed

theorem empty_input_list_witness:
  "\<exists>h'. create_combination_matrix 1 0 0 0 1 no_axes_heap = (None, h')
     \<and> list_list_value h' 1 = [[]]"
proof -
  have v: "valid_call no_axes_heap 0 0 1"
    by (simp add: valid_call_def no_axes_heap_def)
  have c: "tuple_lists no_axes_heap ! 0 = []" and m: "list_lists no_axes_heap ! 1 = []"
    and i: "list_lists no_axes_heap ! 0 = []"
    by (simp_all add: no_axes_heap_def)
  have d: "0 < (1::nat)" by simp
  from empty_input_list [OF v c m i d] show ?thesis .
qed

section \<open>The composer: the objects a call leaves alone\<close>




text \<open>
  Claim C10. Whatever the arguments of a valid call are and however it ends, the
  combinations read from the output list after it are those read before it, unchanged and
  in their positions, followed by the ones the call appended.
\<close>

theorem output_append_only:
  assumes "valid_call h current_combination input_list combination_matrix"
  shows "\<exists>appended.
           list_list_value
             (snd (create_combination_matrix depth index current_combination input_list
                     combination_matrix h)) combination_matrix
           = list_list_value h combination_matrix @ appended"
proof -
  from frame(1) obtain new refs where
    "snd (create_combination_matrix depth index current_combination input_list
            combination_matrix h) = grow h new combination_matrix refs"
    by blast
  moreover have "combination_matrix < length (list_lists h)"
    using assms by (simp add: valid_call_def)
  moreover from this have
    "\<forall>r\<in>set (list_lists h ! combination_matrix). r < length (tuple_lists h)"
    using assms by (intro valid_call_refs)
  ultimately show ?thesis by (simp add: list_list_value_grow)
qed

theorem output_append_only_witness:
  "list_list_value (snd (create_combination_matrix 2 0 1 0 0 aliased_heap)) 0
     = list_list_value aliased_heap 0 @ [[(''seq'', ''on'')]]
   \<and> (\<exists>appended. list_list_value (snd (create_combination_matrix 2 0 1 0 0 aliased_heap)) 0
         = list_list_value aliased_heap 0 @ appended)"
proof -
  have v: "valid_call aliased_heap 1 0 0"
    by (simp add: valid_call_def aliased_heap_def)
  have "list_list_value (snd (create_combination_matrix 2 0 1 0 0 aliased_heap)) 0
     = list_list_value aliased_heap 0 @ [[(''seq'', ''on'')]]"
    by code_simp
  with output_append_only [OF v, of 2 0] show ?thesis by blast
qed




end
